theory Spec2Isabelle
  imports Main "HOL-Library.AList"
begin

section \<open>Errors and sequencing\<close>

text \<open>
  Every exception the modelled code can raise is a value. A computation that may raise
  returns \<open>error + 'a\<close>, with \<open>Inl\<close> for the exception; \<open>bind_err\<close> runs the
  next statement only when the previous one returned.
\<close>

datatype error =
    ValueError string
  | KeyError string
  | RuntimeError
  | TypeError
  | IndexError
  | InvalidArgumentError

definition bind_err :: "error + 'a \<Rightarrow> ('a \<Rightarrow> error + 'b) \<Rightarrow> error + 'b" where
  "bind_err m f = (case m of Inl e \<Rightarrow> Inl e | Inr x \<Rightarrow> f x)"

section \<open>merlin/models/tf/blocks/transformer.py\<close>

text \<open>
  Values that flow through a TransformerBlock: a dense tensor, a ragged tensor, or a
  dictionary of named values (the input dictionary and the model-output objects).
  The tensor payload \<open>'a\<close> is left abstract.
\<close>

datatype 'a tf_value =
    Tensor 'a
  | RaggedTensor 'a
  | Dict "(string \<times> 'a tf_value) list"

text \<open>A layer is called with the running value and the keyword arguments \<open>'k\<close>.\<close>

type_synonym ('k, 'a) layer = "'k \<Rightarrow> 'a tf_value \<Rightarrow> error + 'a tf_value"

record ('k, 'a) transformer_block =
  tb_pre :: "('k, 'a) layer option"
  tb_transformer :: "('k, 'a) layer"
  tb_post :: "('k, 'a) layer option"

text \<open>
  Modelled from the spec: \<open>combinators.call_sequentially\<close> (merlin/models/tf/core) is not
  among the source files. The spec says the block "chains pre/post-processing steps":
  the layers are called one after the other, each on the output of the one before, and
  the output of the last one is the result.
\<close>

fun call_sequentially :: "('k, 'a) layer list \<Rightarrow> 'a tf_value \<Rightarrow> 'k \<Rightarrow> error + 'a tf_value" where
  "call_sequentially [] inputs kwargs = Inr inputs"
| "call_sequentially (l # ls) inputs kwargs =
     (case l kwargs inputs of Inl e \<Rightarrow> Inl e | Inr outputs \<Rightarrow> call_sequentially ls outputs kwargs)"

text \<open>The generator \<open>to_call\<close>: pre if set, the transformer, post if set.\<close>

definition to_call :: "('k, 'a) transformer_block \<Rightarrow> ('k, 'a) layer list" where
  "to_call self =
     (case tb_pre self of Some p \<Rightarrow> [p] | None \<Rightarrow> [])
     @ [tb_transformer self]
     @ (case tb_post self of Some q \<Rightarrow> [q] | None \<Rightarrow> [])"

text \<open>
  \<open>TransformerBlock.call\<close>: a ragged input is densified (\<open>to_tensor\<close>, a method of the
  tensor library), the input is wrapped as \<open>{"inputs_embeds": inputs}\<close>, and the layers of
  \<open>to_call\<close> are called sequentially.
\<close>

definition inputs_embeds :: "('a \<Rightarrow> 'a) \<Rightarrow> 'a tf_value \<Rightarrow> 'a tf_value" where
  "inputs_embeds to_tensor inputs =
     Dict [(''inputs_embeds'',
            (case inputs of RaggedTensor r \<Rightarrow> Tensor (to_tensor r) | v \<Rightarrow> v))]"

definition call :: "('k, 'a) transformer_block \<Rightarrow> ('a \<Rightarrow> 'a) \<Rightarrow> 'a tf_value \<Rightarrow> 'k \<Rightarrow> error + 'a tf_value" where
  "call self to_tensor inputs kwargs =
     call_sequentially (to_call self) (inputs_embeds to_tensor inputs) kwargs"

text \<open>One optional stage of the chain: a stage that is not configured passes its input on.\<close>

definition run_stage :: "('k, 'a) layer option \<Rightarrow> 'k \<Rightarrow> 'a tf_value \<Rightarrow> error + 'a tf_value" where
  "run_stage stage kwargs x = (case stage of None \<Rightarrow> Inr x | Some l \<Rightarrow> l kwargs x)"

section \<open>merlin/models/tf/sampling/base.py: ItemSampler\<close>

text \<open>
  A TensorFlow tensor with a leading (batch) axis is the list of its rows; \<open>tf.shape(t)[0]\<close>
  is the length of that list. An ItemCollection pairs the ids with named metadata tensors.
\<close>

record 'r item_collection =
  ic_ids :: "'r list"
  ic_metadata :: "(string \<times> 'r list) list"

text \<open>
  \<open>ItemSampler._check_inputs_batch_sizes\<close>: loops over the metadata and asserts, for each
  feature, that its first dimension equals that of the ids; \<open>tf.assert_equal\<close> raises
  InvalidArgumentError at the first feature that differs.
\<close>

fun assert_batch_sizes :: "nat \<Rightarrow> (string \<times> 'r list) list \<Rightarrow> error + unit" where
  "assert_batch_sizes embeddings_batch_size [] = Inr ()"
| "assert_batch_sizes embeddings_batch_size ((feat_name, feat) # rest) =
     (if embeddings_batch_size = length feat
      then assert_batch_sizes embeddings_batch_size rest
      else Inl InvalidArgumentError)"

definition check_inputs_batch_sizes :: "'r item_collection \<Rightarrow> error + unit" where
  "check_inputs_batch_sizes items = assert_batch_sizes (length (ic_ids items)) (ic_metadata items)"

text \<open>
  \<open>ItemSampler\<close> is abstract: \<open>add\<close> and \<open>sample\<close> are supplied by a subclass. They act on
  the sampler's own state \<open>'s\<close>. \<open>call\<close> adds the items when training and then samples.
\<close>

record ('s, 'r) item_sampler =
  smp_add :: "'s \<Rightarrow> 'r item_collection \<Rightarrow> error + 's"
  smp_sample :: "'s \<Rightarrow> error + ('r item_collection \<times> 's)"

definition sampler_call ::
  "('s, 'r) item_sampler \<Rightarrow> 's \<Rightarrow> 'r item_collection \<Rightarrow> bool \<Rightarrow> error + ('r item_collection \<times> 's)" where
  "sampler_call self st items training =
     bind_err (if training then smp_add self st items else Inr st) (smp_sample self)"

text \<open>
  A smallest concrete subclass, to run the base-class path on: it keeps the collections it
  was given in a queue; \<open>add\<close> appends, \<open>sample\<close> returns the concatenation of the
  stored ids with no metadata.
\<close>

definition queue_sampler :: "('r item_collection list, 'r) item_sampler" where
  "queue_sampler =
     \<lparr> smp_add = (\<lambda>st items. Inr (st @ [items])),
       smp_sample = (\<lambda>st. Inr (\<lparr> ic_ids = concat (map ic_ids st), ic_metadata = [] \<rparr>, st)) \<rparr>"

section \<open>merlin/models/torch/inputs/tabular.py: TabularInputBlock\<close>

datatype tag = CATEGORICAL | CONTINUOUS | SEQUENCE | ITEM

record column_schema =
  col_name :: string
  col_tags :: "tag list"

type_synonym schema = "column_schema list"

definition column_names :: "schema \<Rightarrow> string list" where
  "column_names s = map col_name s"

definition select_by_tag :: "schema \<Rightarrow> tag \<Rightarrow> schema" where
  "select_by_tag s t = filter (\<lambda>c. t \<in> set (col_tags c)) s"

text \<open>
  The router block under construction: its schema, the routes added so far (a tag and
  the optional module the selected columns go through) and the modules appended after
  the routes. Modules are named by strings.
\<close>

record tabular_input_block =
  blk_schema :: schema
  blk_routes :: "(tag \<times> string option) list"
  blk_appended :: "string list"

type_synonym initializer = "tabular_input_block \<Rightarrow> error + tabular_input_block"

text \<open>The \<open>init\<close> argument is a registry name or an initializer function.\<close>

datatype init_arg = InitName string | InitFn initializer

text \<open>
  Modelled from the spec: the class \<open>Registry\<close> (merlin/models/utils/registry.py) is not
  among the source files. The spec calls it "a named-initializer registry [that] maps a
  string key to a configuration function"; \<open>get\<close> looks a key up and returns None for a
  key that was never registered, which is the case the constructor tests with
  \<open>if not init\<close>. \<open>register\<close> binds a name.
\<close>

type_synonym registry = "(string \<times> initializer) list"

definition registry_get :: "registry \<Rightarrow> string \<Rightarrow> initializer option" where
  "registry_get reg name = map_of reg name"

definition register_init :: "string \<Rightarrow> initializer \<Rightarrow> registry \<Rightarrow> registry" where
  "register_init name f reg = AList.update name f reg"

text \<open>
  Modelled from the spec: \<open>RouterBlock.add_route\<close> and \<open>Block.append\<close>
  (merlin/models/torch) are not among the source files. Adding a route records the tag
  with its module ("categorical columns routed through an embedding-table module,
  continuous columns passed through unchanged"); appending adds a step after the routes.
\<close>

definition add_route :: "tag \<Rightarrow> string option \<Rightarrow> tabular_input_block \<Rightarrow> tabular_input_block" where
  "add_route t m self = self\<lparr>blk_routes := blk_routes self @ [(t, m)]\<rparr>"

definition append_module :: "string \<Rightarrow> tabular_input_block \<Rightarrow> tabular_input_block" where
  "append_module m self = self\<lparr>blk_appended := blk_appended self @ [m]\<rparr>"

text \<open>The initializer \<open>defaults\<close> and the registry as the module leaves it.\<close>

definition defaults :: initializer where
  "defaults block =
     Inr (add_route CATEGORICAL (Some ''EmbeddingTables(seq_combiner=mean)'')
           (add_route CONTINUOUS None block))"

definition initializers :: registry where
  "initializers = register_init ''defaults'' defaults []"

text \<open>Python truthiness of the \<open>init\<close> argument: None and the empty string are false.\<close>

fun truthy_init :: "init_arg option \<Rightarrow> bool" where
  "truthy_init None = False"
| "truthy_init (Some (InitName name)) = (name \<noteq> [])"
| "truthy_init (Some (InitFn f)) = True"

text \<open>
  \<open>TabularInputBlock.__init__\<close>. The variable \<open>init\<close> is overwritten by the result of the
  lookup before the error message is built from it, so the message of the ValueError
  names None. \<open>agg\<close> is the optional aggregation; an empty string is false.
\<close>

definition not_found_message :: "initializer option \<Rightarrow> string" where
  "not_found_message looked_up =
     ''Initializer '' @ (case looked_up of None \<Rightarrow> ''None'' | Some f \<Rightarrow> ''<function>'') @ '' not found.''"

definition apply_init :: "registry \<Rightarrow> init_arg option \<Rightarrow> initializer" where
  "apply_init reg init self =
     (if truthy_init init then
        (case init of
           Some (InitName name) \<Rightarrow>
             (case registry_get reg name of
                None \<Rightarrow> Inl (ValueError (not_found_message None))
              | Some f \<Rightarrow> f self)
         | Some (InitFn f) \<Rightarrow> f self
         | None \<Rightarrow> Inr self)
      else Inr self)"

definition apply_agg :: "string option \<Rightarrow> initializer" where
  "apply_agg agg self =
     (case agg of
        None \<Rightarrow> Inr self
      | Some a \<Rightarrow> if a \<noteq> [] then Inr (append_module a self) else Inr self)"

definition new_block :: "schema \<Rightarrow> tabular_input_block" where
  "new_block s = \<lparr> blk_schema = s, blk_routes = [], blk_appended = [] \<rparr>"

definition TabularInputBlock ::
  "registry \<Rightarrow> schema \<Rightarrow> init_arg option \<Rightarrow> string option \<Rightarrow> error + tabular_input_block" where
  "TabularInputBlock reg s init agg =
     bind_err (apply_init reg init (new_block s)) (apply_agg agg)"

section \<open>merlin/models/tf/sampling/base.py: AddRandomNegativesToBatch\<close>

text \<open>
  The constructor keeps \<open>n_per_positive\<close>, the item-tagged part of the schema and the
  seed. \<open>n_per_positive\<close> and all sizes are counts, hence natural numbers.
\<close>

record add_random_negatives =
  arn_n_per_positive :: nat
  arn_schema :: schema
  arn_seed :: "int option"

definition AddRandomNegativesToBatch :: "schema \<Rightarrow> nat \<Rightarrow> int option \<Rightarrow> add_random_negatives" where
  "AddRandomNegativesToBatch s n_per_positive seed =
     \<lparr> arn_n_per_positive = n_per_positive, arn_schema = select_by_tag s ITEM, arn_seed = seed \<rparr>"

text \<open>
  \<open>tf.random.uniform(shape=(count,), maxval=maxval, dtype=tf.int32)\<close> with the default
  \<open>minval = 0\<close>. The generator is an arbitrary source of raw draws \<open>rng\<close> (draw number
  \<open>k\<close> is \<open>rng k\<close>; it depends on the seed and on nothing this code controls); the
  library reduces each draw modulo the width of the range. An empty range is rejected
  unless no element is asked for.
\<close>

definition tf_random_uniform :: "(nat \<Rightarrow> nat) \<Rightarrow> nat \<Rightarrow> int \<Rightarrow> error + int list" where
  "tf_random_uniform rng count maxval =
     (if 0 < count \<and> maxval \<le> 0 then Inl InvalidArgumentError
      else Inr (map (\<lambda>k. int (rng k) mod maxval) [0..<count]))"

text \<open>
  \<open>tf.gather(params, indices)\<close> along axis 0: an index outside \<open>[0, len(params))\<close> is
  an InvalidArgumentError. \<open>tf.repeat(val, k, axis=0)\<close> repeats each row \<open>k\<close> times in
  place. \<open>tf.concat([a, b], axis=0)\<close> is list append.
\<close>

definition tf_gather :: "'r list \<Rightarrow> int list \<Rightarrow> error + 'r list" where
  "tf_gather params indices =
     (if list_all (\<lambda>i. 0 \<le> i \<and> i < int (length params)) indices
      then Inr (map (\<lambda>i. params ! nat i) indices)
      else Inl InvalidArgumentError)"

definition tf_repeat :: "'r list \<Rightarrow> nat \<Rightarrow> 'r list" where
  "tf_repeat val k = concat (map (replicate k) val)"

text \<open>\<open>sample_ids\<close> discards the items and draws \<open>n_per_positive * batch_size\<close> ids below \<open>batch_size\<close>.\<close>

definition sample_ids :: "add_random_negatives \<Rightarrow> (nat \<Rightarrow> nat) \<Rightarrow> nat \<Rightarrow> 'c \<Rightarrow> error + int list" where
  "sample_ids self rng batch_size items =
     tf_random_uniform rng (arn_n_per_positive self * batch_size) (int batch_size)"

text \<open>The loop of \<open>call\<close> over the input columns, filling the dictionary \<open>outputs\<close>.\<close>

fun add_negatives_loop ::
  "string list \<Rightarrow> nat \<Rightarrow> int list \<Rightarrow> (string \<times> 'r list) list \<Rightarrow> (string \<times> 'r list) list
     \<Rightarrow> error + (string \<times> 'r list) list" where
  "add_negatives_loop item_cols n sampled_ids [] outputs = Inr outputs"
| "add_negatives_loop item_cols n sampled_ids ((name, val) # rest) outputs =
     (if name \<in> set item_cols then
        (case tf_gather val sampled_ids of
           Inl e \<Rightarrow> Inl e
         | Inr negatives \<Rightarrow>
             add_negatives_loop item_cols n sampled_ids rest (AList.update name (val @ negatives) outputs))
      else
        add_negatives_loop item_cols n sampled_ids rest (AList.update name (tf_repeat val (n + 1)) outputs))"

text \<open>
  \<open>AddRandomNegativesToBatch.call\<close>. The batch size is read off the first column
  (IndexError when there is none). \<open>ItemCollection.from_features\<close> is not among the source
  files; its result is only passed to \<open>sample_ids\<close>, which discards it, so it is a
  parameter that may raise.
\<close>

definition add_negatives_call ::
  "add_random_negatives \<Rightarrow> (nat \<Rightarrow> nat)
     \<Rightarrow> (schema \<Rightarrow> (string \<times> 'r list) list \<Rightarrow> error + 'c)
     \<Rightarrow> (string \<times> 'r list) list \<Rightarrow> error + (string \<times> 'r list) list" where
  "add_negatives_call self rng from_features inputs =
     (case inputs of
        [] \<Rightarrow> Inl IndexError
      | (first_name, first_val) # others \<Rightarrow>
          bind_err (from_features (arn_schema self) inputs) (\<lambda>items.
          bind_err (sample_ids self rng (length first_val) items) (\<lambda>sampled_ids.
            add_negatives_loop (column_names (arn_schema self)) (arn_n_per_positive self)
              sampled_ids inputs [])))"

text \<open>What the loop computes for one column, given the sampled ids.\<close>

definition negatives_column :: "string list \<Rightarrow> nat \<Rightarrow> int list \<Rightarrow> string \<times> 'r list \<Rightarrow> string \<times> 'r list" where
  "negatives_column item_cols n sampled_ids col =
     (fst col,
      if fst col \<in> set item_cols
      then snd col @ map (\<lambda>i. snd col ! nat i) sampled_ids
      else tf_repeat (snd col) (n + 1))"

section \<open>merlin/models/torch/transforms/sequences.py: TabularPadding\<close>

subsection \<open>Tensors and the library operations the module calls\<close>

text \<open>
  Integer tensors of rank 0, 1 and 2. \<open>Mat c rows\<close> has shape \<open>(length rows, c)\<close>: the
  number of columns is kept apart, so that a matrix without rows still has a width.
  Every row of a matrix has \<open>c\<close> entries.
\<close>

datatype tensor = Scal int | Vec "int list" | Mat nat "int list list"

fun shape :: "tensor \<Rightarrow> nat list" where
  "shape (Scal v) = []"
| "shape (Vec xs) = [length xs]"
| "shape (Mat c rows) = [length rows, c]"

text \<open>\<open>len(t)\<close>: the size of the first axis; a TypeError for a tensor of rank 0.\<close>

fun tensor_len :: "tensor \<Rightarrow> error + nat" where
  "tensor_len (Scal v) = Inl TypeError"
| "tensor_len (Vec xs) = Inr (length xs)"
| "tensor_len (Mat c rows) = Inr (length rows)"

text \<open>\<open>t[1:] - t[:-1]\<close>, along the first axis; slicing a tensor of rank 0 is an IndexError.\<close>

fun adjacent_diff :: "tensor \<Rightarrow> error + tensor" where
  "adjacent_diff (Scal v) = Inl IndexError"
| "adjacent_diff (Vec xs) = Inr (Vec (map2 (-) (tl xs) (butlast xs)))"
| "adjacent_diff (Mat c rows) = Inr (Mat c (map2 (map2 (-)) (tl rows) (butlast rows)))"

text \<open>\<open>torch.max(t)\<close> over all elements; a RuntimeError when there is none.\<close>

fun elements :: "tensor \<Rightarrow> int list" where
  "elements (Scal v) = [v]"
| "elements (Vec xs) = xs"
| "elements (Mat c rows) = concat rows"

definition torch_max :: "tensor \<Rightarrow> error + int" where
  "torch_max t = (case elements t of [] \<Rightarrow> Inl RuntimeError | x # xs \<Rightarrow> Inr (fold max xs x))"

text \<open>
  \<open>torch.repeat_interleave(xs, repeats)\<close> on rank-1 arguments: element \<open>k\<close> of \<open>xs\<close> is
  repeated \<open>repeats[k]\<close> times. A negative count or a length mismatch is a RuntimeError
  (both call sites pass arguments of the same length).
\<close>

definition repeat_interleave :: "int list \<Rightarrow> int list \<Rightarrow> error + int list" where
  "repeat_interleave xs repeats =
     (if length repeats \<noteq> length xs \<or> list_ex (\<lambda>r. r < 0) repeats then Inl RuntimeError
      else Inr (concat (map2 (\<lambda>x r. replicate (nat r) x) xs repeats)))"

text \<open>
  A sparse COO tensor of rank 2: the coordinate pairs, one value per pair, and the size.
  \<open>torch.sparse_coo_tensor(indices.T, values, size)\<close> takes rank-1 values, as many values
  as coordinate pairs, and (with the constructor's invariant checks) coordinates inside
  the size; anything else is a RuntimeError. \<open>to_dense\<close> fills a zero matrix, adding up
  the values that share a coordinate.
\<close>

record sparse_tensor =
  sp_indices :: "(int \<times> int) list"
  sp_values :: "int list"
  sp_size :: "nat \<times> nat"

definition sparse_coo_tensor :: "(int \<times> int) list \<Rightarrow> tensor \<Rightarrow> int \<times> int \<Rightarrow> error + sparse_tensor" where
  "sparse_coo_tensor indices values sz =
     (case values of
        Vec vs \<Rightarrow>
          if length indices \<noteq> length vs \<or> fst sz < 0 \<or> snd sz < 0 then Inl RuntimeError
          else if list_all (\<lambda>ij. 0 \<le> fst ij \<and> fst ij < fst sz \<and> 0 \<le> snd ij \<and> snd ij < snd sz) indices
          then Inr \<lparr> sp_indices = indices, sp_values = vs, sp_size = (nat (fst sz), nat (snd sz)) \<rparr>
          else Inl RuntimeError
      | _ \<Rightarrow> Inl RuntimeError)"

definition to_dense :: "sparse_tensor \<Rightarrow> tensor" where
  "to_dense sp =
     Mat (snd (sp_size sp))
       (map (\<lambda>i. map (\<lambda>j. sum_list (map snd (filter (\<lambda>e. fst e = (int i, int j))
                                                 (zip (sp_indices sp) (sp_values sp)))))
                      [0..<snd (sp_size sp)])
            [0..<fst (sp_size sp)])"

subsection \<open>The module\<close>

record tabular_padding =
  tp_schema :: schema
  tp_max_sequence_length :: "int option"
  tp_features :: "string list"
  tp_sparse_features :: "string list"
  tp_padding_idx :: int

definition TabularPadding :: "schema \<Rightarrow> int option \<Rightarrow> tabular_padding" where
  "TabularPadding s max_sequence_length =
     \<lparr> tp_schema = s,
       tp_max_sequence_length = max_sequence_length,
       tp_features = column_names s,
       tp_sparse_features = column_names (select_by_tag s SEQUENCE),
       tp_padding_idx = 0 \<rparr>"

text \<open>\<open>_squeeze\<close>: a tensor of rank 2 is squeezed along axis 1, which drops the axis only when its size is 1.\<close>

fun squeeze :: "tensor \<Rightarrow> tensor" where
  "squeeze (Mat c rows) = (if c = 1 then Vec (concat rows) else Mat c rows)"
| "squeeze (Vec xs) = Vec xs"
| "squeeze (Scal v) = Scal v"

text \<open>
  \<open>_get_indices\<close>. The result is the list of (row, column) pairs, the rows of the
  \<open>indices\<close> tensor. Offsets of rank 0 have no \<open>len\<close>; \<open>arange\<close> of a negative bound and
  \<open>repeat_interleave\<close> with repeats of rank 2 are RuntimeErrors.
\<close>

fun get_indices :: "tensor \<Rightarrow> tensor \<Rightarrow> error + (int \<times> int) list" where
  "get_indices (Vec offsets) (Vec diff_offsets) =
     (if offsets = [] then Inl RuntimeError
      else
        bind_err (repeat_interleave (map int [0..<length offsets - 1]) diff_offsets) (\<lambda>row_ids_repeated.
        bind_err (repeat_interleave (butlast offsets) diff_offsets) (\<lambda>row_offset_repeated.
          let col_ids = map2 (-) (map int [0..<length row_offset_repeated]) row_offset_repeated
          in Inr (zip row_ids_repeated col_ids))))"
| "get_indices (Scal v) diff_offsets = Inl TypeError"
| "get_indices offsets diff_offsets = Inl RuntimeError"

text \<open>
  \<open>_pad_dense_tensor\<close>: a tensor of rank 2 is padded on the right of its second axis by
  \<open>length - shape[1]\<close> zeros; \<open>F.pad\<close> crops when that number is negative and rejects a
  negative resulting width. Tensors of other ranks are returned as they are.
\<close>

fun pad_dense_tensor :: "tensor \<Rightarrow> int \<Rightarrow> error + tensor" where
  "pad_dense_tensor (Mat c rows) len =
     (let pad_diff = len - int c
      in if len < 0 then Inl RuntimeError
         else Inr (Mat (nat len) (map (\<lambda>r. take (nat len) r @ replicate (nat pad_diff) 0) rows)))"
| "pad_dense_tensor (Vec xs) len = Inr (Vec xs)"
| "pad_dense_tensor (Scal v) len = Inr (Scal v)"

text \<open>\<open>_pad_ragged_tensor\<close>.\<close>

definition pad_ragged_tensor :: "tensor \<Rightarrow> tensor \<Rightarrow> int \<Rightarrow> error + tensor" where
  "pad_ragged_tensor values offsets padding_length =
     (let values = squeeze values; offsets = squeeze offsets in
      bind_err (tensor_len offsets) (\<lambda>n.
      let num_rows = int n - 1 in
      bind_err (adjacent_diff offsets) (\<lambda>diff_offsets.
      bind_err (torch_max diff_offsets) (\<lambda>max_length.
      bind_err (get_indices offsets diff_offsets) (\<lambda>indices.
      bind_err (sparse_coo_tensor indices values (num_rows, max_length)) (\<lambda>sparse_tensor.
        pad_dense_tensor (to_dense sparse_tensor) padding_length))))))"

text \<open>
  The same function with a log: the first component lists the result of every call of
  \<open>_get_indices\<close> that returned, that is, every list of coordinate pairs that was built.
\<close>

definition pad_ragged_tensor_traced ::
  "tensor \<Rightarrow> tensor \<Rightarrow> int \<Rightarrow> (int \<times> int) list list \<times> (error + tensor)" where
  "pad_ragged_tensor_traced values offsets padding_length =
     (let values = squeeze values; offsets = squeeze offsets in
      case bind_err (tensor_len offsets) (\<lambda>n.
           bind_err (adjacent_diff offsets) (\<lambda>diff_offsets.
           bind_err (torch_max diff_offsets) (\<lambda>max_length. Inr (n, diff_offsets, max_length)))) of
        Inl e \<Rightarrow> ([], Inl e)
      | Inr (n, diff_offsets, max_length) \<Rightarrow>
          (case get_indices offsets diff_offsets of
             Inl e \<Rightarrow> ([], Inl e)
           | Inr indices \<Rightarrow>
               ([indices],
                bind_err (sparse_coo_tensor indices values (int n - 1, max_length)) (\<lambda>sparse_tensor.
                  pad_dense_tensor (to_dense sparse_tensor) padding_length))))"

subsection \<open>forward\<close>

text \<open>Python's \<open>key.endswith(suffix)\<close> and \<open>key[: -len(suffix)]\<close>.\<close>

definition endswith :: "string \<Rightarrow> string \<Rightarrow> bool" where
  "endswith key suffix =
     (length suffix \<le> length key \<and> drop (length key - length suffix) key = suffix)"

definition strip_suffix :: "string \<Rightarrow> string \<Rightarrow> string" where
  "strip_suffix key suffix = take (length key - length suffix) key"

text \<open>
  A batch: the features, the optional targets and the optional sequence lengths, each a
  dictionary in insertion order.
\<close>

record batch =
  b_features :: "(string \<times> tensor) list"
  b_targets :: "(string \<times> tensor) list option"
  b_sequences :: "(string \<times> tensor) list option"

text \<open>The loop that infers the maximum row length from the offsets of the batch.\<close>

fun batch_max_sequence_length :: "(string \<times> tensor) list \<Rightarrow> int \<Rightarrow> error + int" where
  "batch_max_sequence_length [] batch_max = Inr batch_max"
| "batch_max_sequence_length ((key, val) # rest) batch_max =
     (if endswith key ''__offsets'' then
        bind_err (adjacent_diff val) (\<lambda>d.
        bind_err (torch_max d) (\<lambda>max_row_length.
          batch_max_sequence_length rest (max max_row_length batch_max)))
      else batch_max_sequence_length rest batch_max)"

text \<open>\<open>if not _max_sequence_length\<close>: None and 0 are both false, and the length is then inferred.\<close>

definition resolve_max_sequence_length :: "tabular_padding \<Rightarrow> (string \<times> tensor) list \<Rightarrow> error + int" where
  "resolve_max_sequence_length self features =
     (case tp_max_sequence_length self of
        None \<Rightarrow> batch_max_sequence_length features 0
      | Some n \<Rightarrow> if n = 0 then batch_max_sequence_length features 0 else Inr n)"

text \<open>\<open>(val != padding_idx).sum(-1)\<close>: the number of entries that are not padding, along the last axis.\<close>

fun count_not_padding :: "int \<Rightarrow> tensor \<Rightarrow> tensor" where
  "count_not_padding p (Scal v) = Scal (if v \<noteq> p then 1 else 0)"
| "count_not_padding p (Vec xs) = Scal (int (length (filter (\<lambda>x. x \<noteq> p) xs)))"
| "count_not_padding p (Mat c rows) = Vec (map (\<lambda>r. int (length (filter (\<lambda>x. x \<noteq> p) r))) rows)"

text \<open>\<open>_get_sequence_lengths\<close>, as a loop over the dictionary that fills \<open>seq_inputs_lengths\<close>.\<close>

fun sequence_lengths_loop ::
  "tabular_padding \<Rightarrow> (string \<times> tensor) list \<Rightarrow> (string \<times> tensor) list \<Rightarrow> error + (string \<times> tensor) list" where
  "sequence_lengths_loop self [] seq_inputs_lengths = Inr seq_inputs_lengths"
| "sequence_lengths_loop self ((key, val) # rest) seq_inputs_lengths =
     (if endswith key ''__offsets'' then
        bind_err (adjacent_diff val) (\<lambda>d.
          sequence_lengths_loop self rest
            (AList.update (strip_suffix key ''__offsets'') d seq_inputs_lengths))
      else if key \<in> set (tp_sparse_features self) then
        sequence_lengths_loop self rest
          (AList.update key (count_not_padding (tp_padding_idx self) val) seq_inputs_lengths)
      else sequence_lengths_loop self rest seq_inputs_lengths)"

definition get_sequence_lengths :: "tabular_padding \<Rightarrow> (string \<times> tensor) list \<Rightarrow> error + (string \<times> tensor) list" where
  "get_sequence_lengths self sequences = sequence_lengths_loop self sequences []"

text \<open>
  \<open>torch.all(x == y)\<close>. The comparison broadcasts: the shapes are aligned on the right,
  an axis of size 1 is stretched, and sizes that differ otherwise are a RuntimeError.
  Both tensors are read as matrices (a vector is one row, a scalar one entry).
\<close>

fun as_rows :: "tensor \<Rightarrow> int list list" where
  "as_rows (Scal v) = [[v]]"
| "as_rows (Vec xs) = [xs]"
| "as_rows (Mat c rows) = rows"

fun width :: "tensor \<Rightarrow> nat" where
  "width (Scal v) = 1"
| "width (Vec xs) = length xs"
| "width (Mat c rows) = c"

definition stretch :: "nat \<Rightarrow> 'a list \<Rightarrow> 'a list" where
  "stretch n xs = (case xs of [x] \<Rightarrow> replicate n x | _ \<Rightarrow> xs)"

definition broadcastable :: "nat \<Rightarrow> nat \<Rightarrow> bool" where
  "broadcastable m n = (m = n \<or> m = 1 \<or> n = 1)"

definition broadcast_size :: "nat \<Rightarrow> nat \<Rightarrow> nat" where
  "broadcast_size m n = (if m = 1 then n else m)"

definition all_equal :: "tensor \<Rightarrow> tensor \<Rightarrow> error + bool" where
  "all_equal x y =
     (if \<not> broadcastable (length (as_rows x)) (length (as_rows y)) \<or> \<not> broadcastable (width x) (width y)
      then Inl RuntimeError
      else
        let r = broadcast_size (length (as_rows x)) (length (as_rows y));
            c = broadcast_size (width x) (width y)
        in Inr (list_all (\<lambda>rows. stretch c (fst rows) = stretch c (snd rows))
                  (zip (stretch r (as_rows x)) (stretch r (as_rows y)))))"

text \<open>
  The check of \<open>forward\<close>: every entry of \<open>seq_shapes\<close> is compared with the first one;
  \<open>torch.stack\<close> of no tensor is a RuntimeError. The ValueError carries the fixed part of
  the message.
\<close>

fun compare_with :: "tensor \<Rightarrow> tensor list \<Rightarrow> error + bool list" where
  "compare_with first [] = Inr []"
| "compare_with first (x # xs) =
     bind_err (all_equal x first) (\<lambda>b.
     bind_err (compare_with first xs) (\<lambda>bs. Inr (b # bs)))"

definition same_length_message :: string where
  "same_length_message =
     ''The sequential inputs must have the same length for each row in the batch, but they are different''"

definition check_sequence_lengths :: "tensor list \<Rightarrow> error + unit" where
  "check_sequence_lengths seq_shapes =
     (case seq_shapes of
        [] \<Rightarrow> Inl RuntimeError
      | first # others \<Rightarrow>
          bind_err (compare_with first seq_shapes) (\<lambda>flags.
            if list_all (\<lambda>b. b) flags then Inr () else Inl (ValueError same_length_message)))"

text \<open>Python's \<open>dict[key]\<close>.\<close>

definition dict_get :: "(string \<times> 'v) list \<Rightarrow> string \<Rightarrow> error + 'v" where
  "dict_get d key = (case map_of d key of None \<Rightarrow> Inl (KeyError key) | Some v \<Rightarrow> Inr v)"

text \<open>The loop that pads the features; \<open>features\<close> is the whole dictionary, for the lookup of the values.\<close>

fun pad_features_loop ::
  "tabular_padding \<Rightarrow> (string \<times> tensor) list \<Rightarrow> (string \<times> tensor) list \<Rightarrow> int
     \<Rightarrow> (string \<times> tensor) list \<Rightarrow> (string \<times> tensor) list \<Rightarrow> error + (string \<times> tensor) list" where
  "pad_features_loop self features seq_inputs_lengths max_len [] batch_padded = Inr batch_padded"
| "pad_features_loop self features seq_inputs_lengths max_len ((key, val) # rest) batch_padded =
     (if endswith key ''__offsets'' then
        (let col_name = strip_suffix key ''__offsets'' in
         if col_name \<in> set (tp_features self) then
           bind_err (dict_get features (col_name @ ''__values'')) (\<lambda>vals.
           bind_err (pad_ragged_tensor vals val max_len) (\<lambda>padded_values.
             pad_features_loop self features seq_inputs_lengths max_len rest
               (AList.update col_name padded_values batch_padded)))
         else pad_features_loop self features seq_inputs_lengths max_len rest batch_padded)
      else if endswith key ''__values'' then
        pad_features_loop self features seq_inputs_lengths max_len rest batch_padded
      else if key \<in> set (tp_features self) \<and> map_of seq_inputs_lengths key \<noteq> None then
        bind_err (pad_dense_tensor val max_len) (\<lambda>padded.
          pad_features_loop self features seq_inputs_lengths max_len rest
            (AList.update key padded batch_padded))
      else pad_features_loop self features seq_inputs_lengths max_len rest batch_padded)"

text \<open>The loop that pads the targets: ragged targets are padded, the others are copied.\<close>

fun pad_targets_loop ::
  "(string \<times> tensor) list \<Rightarrow> int \<Rightarrow> (string \<times> tensor) list \<Rightarrow> (string \<times> tensor) list
     \<Rightarrow> error + (string \<times> tensor) list" where
  "pad_targets_loop targets max_len [] targets_padded = Inr targets_padded"
| "pad_targets_loop targets max_len ((key, val) # rest) targets_padded =
     (if endswith key ''__offsets'' then
        (let col_name = strip_suffix key ''__offsets'' in
         bind_err (dict_get targets (col_name @ ''__values'')) (\<lambda>vals.
         bind_err (pad_ragged_tensor vals val max_len) (\<lambda>padded_values.
           pad_targets_loop targets max_len rest (AList.update col_name padded_values targets_padded))))
      else if endswith key ''__values'' then
        pad_targets_loop targets max_len rest targets_padded
      else pad_targets_loop targets max_len rest (AList.update key val targets_padded))"

definition pad_targets :: "(string \<times> tensor) list option \<Rightarrow> int \<Rightarrow> error + (string \<times> tensor) list option" where
  "pad_targets targets max_len =
     (case targets of
        None \<Rightarrow> Inr None
      | Some t \<Rightarrow> bind_err (pad_targets_loop t max_len t []) (\<lambda>targets_padded. Inr (Some targets_padded)))"

text \<open>\<open>TabularPadding.forward\<close> (its first argument \<open>inputs\<close> is not used).\<close>

definition forward :: "tabular_padding \<Rightarrow> batch \<Rightarrow> error + batch" where
  "forward self batch =
     bind_err (resolve_max_sequence_length self (b_features batch)) (\<lambda>max_len.
     bind_err (get_sequence_lengths self (b_features batch)) (\<lambda>seq_inputs_lengths.
     bind_err (check_sequence_lengths (map snd seq_inputs_lengths)) (\<lambda>checked.
     bind_err (pad_features_loop self (b_features batch) seq_inputs_lengths max_len
                 (b_features batch) []) (\<lambda>batch_padded.
     bind_err (pad_targets (b_targets batch) max_len) (\<lambda>targets_padded.
       Inr \<lparr> b_features = batch_padded, b_targets = targets_padded,
             b_sequences = Some seq_inputs_lengths \<rparr>)))))"

section \<open>Notions used to state and prove the properties of TabularPadding\<close>

text \<open>
  A ragged column seen as the list of its rows: the offsets that encode the rows when
  the first one starts at position \<open>a\<close> of the values, and the coordinate pairs of all
  entries, row by row, when the first row has index \<open>s\<close>.
\<close>

fun offsets_of :: "nat \<Rightarrow> int list list \<Rightarrow> int list" where
  "offsets_of a [] = [int a]"
| "offsets_of a (r # rs) = int a # offsets_of (a + length r) rs"

fun coords :: "nat \<Rightarrow> int list list \<Rightarrow> (int \<times> int) list" where
  "coords s [] = []"
| "coords s (r # rs) = map (\<lambda>j. (int s, int j)) [0..<length r] @ coords (Suc s) rs"

text \<open>A row cut to \<open>n\<close> entries and filled up with zeros on the right.\<close>

definition pad_row :: "nat \<Rightarrow> int list \<Rightarrow> int list" where
  "pad_row n r = take n r @ replicate (n - length r) 0"

definition max_row_length :: "int list list \<Rightarrow> nat" where
  "max_row_length rs = Max (set (map length rs))"

text \<open>
  The ragged encoding of a column: a flat list of values and the row boundaries in it.
  There is at least one row (\<open>rows + 1\<close> offsets), the first row starts at 0, the
  offsets are monotonic, and the last offset is the number of values. Row \<open>i\<close> is
  \<open>values[offsets[i] : offsets[i+1]]\<close>.
\<close>

definition valid_ragged :: "int list \<Rightarrow> int list \<Rightarrow> bool" where
  "valid_ragged vals offsets =
     (2 \<le> length offsets \<and> hd offsets = 0 \<and> sorted offsets \<and> last offsets = int (length vals))"

fun ragged_rows :: "int list \<Rightarrow> int list \<Rightarrow> int list list" where
  "ragged_rows vals (a # b # offsets) =
     take (nat (b - a)) (drop (nat a) vals) # ragged_rows vals (b # offsets)"
| "ragged_rows vals offsets = []"

section \<open>Properties: TransformerBlock\<close>

lemma call_sequentially_append:
  "call_sequentially (ls @ ms) x kw = bind_err (call_sequentially ls x kw) (\<lambda>y. call_sequentially ms y kw)"
  by (induction ls arbitrary: x) (auto simp: bind_err_def split: sum.splits)

lemma call_sequentially_single:
  "call_sequentially [l] x kw = l kw x"
  by (simp split: sum.splits)

text \<open>
  C8. Calling a TransformerBlock runs the pre block (when one is configured) on the
  wrapped input, then the transformer layer on its output, then the post block (when
  one is configured), and returns the result of this chain; an exception in a stage ends
  the call with that exception.
\<close>

theorem transformer_block_call_chain:
  "call self to_tensor inputs kwargs =
     bind_err
       (bind_err (run_stage (tb_pre self) kwargs (inputs_embeds to_tensor inputs))
                 (tb_transformer self kwargs))
       (run_stage (tb_post self) kwargs)"
  by (cases "tb_pre self"; cases "tb_post self")
     (auto simp: call_def to_call_def run_stage_def bind_err_def split: sum.splits)

section \<open>Properties: ItemSampler\<close>

lemma assert_batch_sizes_eq:
  "assert_batch_sizes b md =
     (if list_all (\<lambda>nf. length (snd nf) = b) md then Inr () else Inl InvalidArgumentError)"
  by (induction md) auto

text \<open>
  C4, as the code has it. The check \<open>_check_inputs_batch_sizes\<close> succeeds exactly on the
  collections in which every metadata tensor has the first dimension of the ids, and
  raises InvalidArgumentError on the others. \<open>ItemSampler.call\<close> does not run the check:
  when not training it does not look at its argument and returns what \<open>sample\<close>
  returns; when training it hands the argument to the subclass's \<open>add\<close> and then
  samples.
\<close>

theorem check_inputs_batch_sizes_and_call:
  "check_inputs_batch_sizes items =
     (if list_all (\<lambda>nf. length (snd nf) = length (ic_ids items)) (ic_metadata items)
      then Inr () else Inl InvalidArgumentError)
   \<and> sampler_call self st items False = smp_sample self st
   \<and> sampler_call self st items True = bind_err (smp_add self st items) (smp_sample self)"
  by (simp add: check_inputs_batch_sizes_def assert_batch_sizes_eq sampler_call_def bind_err_def)

text \<open>
  C4 as stated fails: a collection with two ids and a metadata tensor of one row is
  rejected by the check, and yet the call path returns a sample for it.
\<close>

theorem sampler_call_mismatch_counterexample:
  "check_inputs_batch_sizes \<lparr> ic_ids = [1, 2 :: nat], ic_metadata = [(''price'', [10])] \<rparr>
     = Inl InvalidArgumentError
   \<and> sampler_call queue_sampler [] \<lparr> ic_ids = [1, 2 :: nat], ic_metadata = [(''price'', [10])] \<rparr> False
     = Inr (\<lparr> ic_ids = [], ic_metadata = [] \<rparr>, [])
   \<and> sampler_call queue_sampler [] \<lparr> ic_ids = [1, 2 :: nat], ic_metadata = [(''price'', [10])] \<rparr> True
     = Inr (\<lparr> ic_ids = [1, 2], ic_metadata = [] \<rparr>,
            [\<lparr> ic_ids = [1, 2 :: nat], ic_metadata = [(''price'', [10])] \<rparr>])"
  by (simp add: check_inputs_batch_sizes_def sampler_call_def queue_sampler_def bind_err_def)

section \<open>Properties: TabularInputBlock\<close>

lemma registry_get_initializers [simp]:
  "registry_get initializers name = (if name = ''defaults'' then Some defaults else None)"
  by (simp add: registry_get_def initializers_def register_init_def)

text \<open>
  The message of the error for an unknown name is built after \<open>init\<close> was overwritten
  with the result of the lookup: it reads "Initializer None not found." whatever the
  name was.
\<close>

lemma unknown_initializer_message:
  "TabularInputBlock initializers s (Some (InitName ''nope'')) agg
     = Inl (ValueError ''Initializer None not found.'')"
  by (simp add: TabularInputBlock_def apply_init_def not_found_message_def bind_err_def)

text \<open>
  C5, as the code has it. For a nonempty name: when the name is not registered, the
  constructor raises a ValueError and builds no block; when it is registered, the
  registered initializer is applied to the fresh block (and the aggregation, if any, is
  appended to what it returns).
\<close>

theorem tabular_input_block_init_by_name:
  assumes "name \<noteq> []"
  shows "(registry_get reg name = None \<longrightarrow>
            (\<exists>msg. TabularInputBlock reg s (Some (InitName name)) agg = Inl (ValueError msg)))
       \<and> (\<forall>f. registry_get reg name = Some f \<longrightarrow>
            TabularInputBlock reg s (Some (InitName name)) agg
              = bind_err (f (new_block s)) (apply_agg agg))"
  using assms by (auto simp: TabularInputBlock_def apply_init_def bind_err_def)

theorem tabular_input_block_init_by_name_witness:
  "''nope'' \<noteq> [] \<and> registry_get initializers ''nope'' = None
   \<and> (\<exists>msg. TabularInputBlock initializers [] (Some (InitName ''nope'')) None = Inl (ValueError msg))
   \<and> ''defaults'' \<noteq> [] \<and> registry_get initializers ''defaults'' = Some defaults
   \<and> TabularInputBlock initializers [] (Some (InitName ''defaults'')) None
       = Inr \<lparr> blk_schema = [],
              blk_routes = [(CONTINUOUS, None), (CATEGORICAL, Some ''EmbeddingTables(seq_combiner=mean)'')],
              blk_appended = [] \<rparr>"
  using tabular_input_block_init_by_name [of "''nope''" initializers "[]" None]
        tabular_input_block_init_by_name [of "''defaults''" initializers "[]" None]
  by (simp add: defaults_def add_route_def new_block_def apply_agg_def bind_err_def)

text \<open>
  C5 as stated fails at the empty name: it is not registered, and the constructor
  returns a block with no routes instead of raising.
\<close>

theorem tabular_input_block_empty_name_counterexample:
  "registry_get initializers [] = None
   \<and> TabularInputBlock initializers
        [\<lparr> col_name = ''age'', col_tags = [CONTINUOUS] \<rparr>] (Some (InitName [])) None
     = Inr \<lparr> blk_schema = [\<lparr> col_name = ''age'', col_tags = [CONTINUOUS] \<rparr>],
            blk_routes = [], blk_appended = [] \<rparr>"
  by (simp add: TabularInputBlock_def apply_init_def apply_agg_def new_block_def bind_err_def)

section \<open>Properties: AddRandomNegativesToBatch\<close>

lemma tf_random_uniform_range:
  assumes "0 < maxval"
  shows "tf_random_uniform rng count maxval = Inr (map (\<lambda>k. int (rng k) mod maxval) [0..<count])"
    and "\<And>ids. tf_random_uniform rng count maxval = Inr ids \<Longrightarrow>
           length ids = count \<and> (\<forall>i\<in>set ids. 0 \<le> i \<and> i < maxval)"
  using assms by (auto simp: tf_random_uniform_def)

lemma tf_gather_in_range:
  assumes "\<forall>i\<in>set ids. 0 \<le> i \<and> i < int (length val)"
  shows "tf_gather val ids = Inr (map (\<lambda>i. val ! nat i) ids)"
  using assms by (simp add: tf_gather_def list_all_iff)

lemma add_negatives_loop_eq:
  assumes "\<forall>col\<in>set cols. \<forall>i\<in>set ids. 0 \<le> i \<and> i < int (length (snd col))"
      and "distinct (map fst cols)"
      and "\<forall>col\<in>set cols. fst col \<notin> fst ` set acc"
  shows "add_negatives_loop item_cols n ids cols acc
           = Inr (acc @ map (negatives_column item_cols n ids) cols)"
  using assms
proof (induction cols arbitrary: acc)
  case Nil
  then show ?case by simp
next
  case (Cons c cols)
  obtain name val where c: "c = (name, val)" by (cases c)
  have fresh: "name \<notin> fst ` set acc" using Cons.prems(3) c by auto
  have upd: "\<And>v. AList.update name v acc = acc @ [(name, v)]"
    using fresh by (induction acc) auto
  have g: "tf_gather val ids = Inr (map (\<lambda>i. val ! nat i) ids)"
    using Cons.prems(1) c by (intro tf_gather_in_range) auto
  have rest: "\<And>v. add_negatives_loop item_cols n ids cols (acc @ [(name, v)])
                = Inr ((acc @ [(name, v)]) @ map (negatives_column item_cols n ids) cols)"
  proof -
    fix v
    show "add_negatives_loop item_cols n ids cols (acc @ [(name, v)])
                = Inr ((acc @ [(name, v)]) @ map (negatives_column item_cols n ids) cols)"
      using Cons.prems c by (intro Cons.IH) auto
  qed
  show ?case
    by (simp add: c g upd rest negatives_column_def)
qed

lemma length_tf_repeat: "length (tf_repeat val k) = length val * k"
  by (induction val) (simp_all add: tf_repeat_def)

lemma sample_ids_eq:
  "sample_ids self rng batch_size items
     = Inr (map (\<lambda>k. int (rng k) mod int batch_size) [0..<arn_n_per_positive self * batch_size])"
  by (auto simp: sample_ids_def tf_random_uniform_def)

lemma sampled_ids_bounds:
  assumes "i \<in> set (map (\<lambda>k. int (rng k) mod int batch_size) [0..<n * batch_size])"
  shows "0 \<le> i \<and> i < int batch_size"
proof (cases "batch_size = 0")
  case True
  then show ?thesis using assms by simp
next
  case False
  then have "0 < int batch_size" by simp
  then show ?thesis using assms by auto
qed

text \<open>
  C9. For a nonempty input whose columns all have \<open>batch_size\<close> rows (and whose item
  collection can be built), \<open>call\<close> returns the same column names in the same order;
  an item-tagged column is its rows followed by the \<open>n_per_positive * batch_size\<close> rows
  gathered at the sampled ids, every other column has each row repeated
  \<open>n_per_positive + 1\<close> times, and every output column has
  \<open>batch_size * (n_per_positive + 1)\<close> rows.
\<close>

theorem add_negatives_call_aligned:
  assumes "inputs \<noteq> []"
      and "distinct (map fst inputs)"
      and "\<forall>col\<in>set inputs. length (snd col) = batch_size"
      and "from_features (arn_schema self) inputs = Inr items"
  shows "\<exists>ids outputs.
           sample_ids self rng batch_size items = Inr ids
         \<and> length ids = arn_n_per_positive self * batch_size
         \<and> add_negatives_call self rng from_features inputs = Inr outputs
         \<and> map fst outputs = map fst inputs
         \<and> outputs = map (negatives_column (column_names (arn_schema self))
                            (arn_n_per_positive self) ids) inputs
         \<and> (\<forall>col\<in>set outputs. length (snd col) = batch_size * (arn_n_per_positive self + 1))"
proof -
  define n where "n = arn_n_per_positive self"
  define item_cols where "item_cols = column_names (arn_schema self)"
  define ids where "ids = map (\<lambda>k. int (rng k) mod int batch_size) [0..<n * batch_size]"
  define outputs where "outputs = map (negatives_column item_cols n ids) inputs"
  obtain first_name first_val others where inp: "inputs = (first_name, first_val) # others"
    using assms(1) by (cases inputs) auto
  have bs: "length first_val = batch_size"
    using assms(3) inp by auto
  have s: "sample_ids self rng batch_size items = Inr ids"
    by (simp add: sample_ids_eq ids_def n_def)
  have len: "length ids = n * batch_size"
    by (simp add: ids_def)
  have inb: "\<forall>col\<in>set inputs. \<forall>i\<in>set ids. 0 \<le> i \<and> i < int (length (snd col))"
    using assms(3) sampled_ids_bounds [of _ rng batch_size n] unfolding ids_def by metis
  have loop: "add_negatives_loop item_cols n ids inputs [] = Inr ([] @ outputs)"
    unfolding outputs_def using inb assms(2) by (intro add_negatives_loop_eq) auto
  have c: "add_negatives_call self rng from_features inputs = Inr outputs"
    using loop s assms(4) bs
    by (simp add: add_negatives_call_def inp bind_err_def n_def item_cols_def)
  have keys: "map fst outputs = map fst inputs"
    by (simp add: outputs_def negatives_column_def comp_def)
  have rows: "\<forall>col\<in>set outputs. length (snd col) = batch_size * (n + 1)"
    using assms(3) by (auto simp: outputs_def negatives_column_def len length_tf_repeat)
  show ?thesis
    using s len c keys rows unfolding outputs_def n_def item_cols_def by blast
qed

theorem add_negatives_call_aligned_witness:
  "add_negatives_call
     (AddRandomNegativesToBatch
        [\<lparr> col_name = ''item_id'', col_tags = [ITEM, CATEGORICAL] \<rparr>,
         \<lparr> col_name = ''user_id'', col_tags = [CATEGORICAL] \<rparr>] 2 None)
     (\<lambda>k. 3 * k + 1) (\<lambda>s f. Inr ())
     [(''item_id'', [10, 20 :: nat]), (''user_id'', [7, 8])]
   = Inr [(''item_id'', [10, 20, 20, 10, 20, 10]), (''user_id'', [7, 7, 7, 8, 8, 8])]"
proof -
  let ?self = "AddRandomNegativesToBatch
        [\<lparr> col_name = ''item_id'', col_tags = [ITEM, CATEGORICAL] \<rparr>,
         \<lparr> col_name = ''user_id'', col_tags = [CATEGORICAL] \<rparr>] 2 None"
  let ?inputs = "[(''item_id'', [10, 20 :: nat]), (''user_id'', [7, 8])]"
  let ?ff = "(\<lambda>s f. Inr ()) :: schema \<Rightarrow> (string \<times> nat list) list \<Rightarrow> error + unit"
  have h1: "?inputs \<noteq> []" by simp
  have h2: "distinct (map fst ?inputs)" by simp
  have h3: "\<forall>col\<in>set ?inputs. length (snd col) = 2" by simp
  have h4: "?ff (arn_schema ?self) ?inputs = Inr ()" by simp
  have ids: "sample_ids ?self (\<lambda>k. 3 * k + 1) 2 () = Inr [1, 0, 1, 0]"
    by (simp add: sample_ids_eq AddRandomNegativesToBatch_def upt_rec [of _ 4] upt_rec [of _ "Suc (Suc (Suc (Suc 0)))"])
  from add_negatives_call_aligned [OF h1 h2 h3 h4, where rng = "\<lambda>k. 3 * k + 1"]
  obtain ids outputs where
    a: "sample_ids ?self (\<lambda>k. 3 * k + 1) 2 () = Inr ids"
    and b: "add_negatives_call ?self (\<lambda>k. 3 * k + 1) ?ff ?inputs = Inr outputs"
    and c: "outputs = map (negatives_column (column_names (arn_schema ?self))
                            (arn_n_per_positive ?self) ids) ?inputs"
    by blast
  have "ids = [1, 0, 1, 0]" using a ids by simp
  then have "outputs = [(''item_id'', [10, 20, 20, 10, 20, 10]), (''user_id'', [7, 7, 7, 8, 8, 8])]"
    using c
    by (simp add: negatives_column_def AddRandomNegativesToBatch_def select_by_tag_def
          column_names_def tf_repeat_def numeral_3_eq_3)
  then show ?thesis using b by simp
qed

text \<open>
  C10. For positive \<open>batch_size\<close> and \<open>n_per_positive\<close>, \<open>sample_ids\<close> returns
  \<open>n_per_positive * batch_size\<close> ids, each in \<open>[0, batch_size)\<close>, whatever the generator
  draws, and gathering at these ids from a column of \<open>batch_size\<close> rows succeeds.
\<close>

theorem sample_ids_in_range:
  assumes "0 < batch_size" and "0 < arn_n_per_positive self"
  shows "\<exists>ids. sample_ids self rng batch_size items = Inr ids
             \<and> length ids = arn_n_per_positive self * batch_size
             \<and> (\<forall>i\<in>set ids. 0 \<le> i \<and> i < int batch_size)
             \<and> (\<forall>val. length (val :: 'r list) = batch_size \<longrightarrow>
                    tf_gather val ids = Inr (map (\<lambda>i. val ! nat i) ids))"
proof -
  define ids where
    "ids = map (\<lambda>k. int (rng k) mod int batch_size) [0..<arn_n_per_positive self * batch_size]"
  have s: "sample_ids self rng batch_size items = Inr ids"
    by (simp add: sample_ids_eq ids_def)
  have r: "\<forall>i\<in>set ids. 0 \<le> i \<and> i < int batch_size"
    using sampled_ids_bounds [of _ rng batch_size "arn_n_per_positive self"]
    unfolding ids_def by blast
  have g: "\<forall>val. length (val :: 'r list) = batch_size \<longrightarrow>
                    tf_gather val ids = Inr (map (\<lambda>i. val ! nat i) ids)"
    using r by (auto intro: tf_gather_in_range)
  have l: "length ids = arn_n_per_positive self * batch_size"
    by (simp add: ids_def)
  show ?thesis using s l r g by blast
qed

theorem sample_ids_in_range_witness:
  "(0 :: nat) < 2
   \<and> 0 < arn_n_per_positive (AddRandomNegativesToBatch [] 2 None)
   \<and> sample_ids (AddRandomNegativesToBatch [] 2 None) (\<lambda>k. 3 * k + 1) 2 () = Inr [1, 0, 1, 0]
   \<and> tf_gather [10, 20 :: nat] [1, 0, 1, 0] = Inr [20, 10, 20, 10]"
proof -
  let ?self = "AddRandomNegativesToBatch [] 2 None"
  have h1: "(0 :: nat) < 2" by simp
  have h2: "0 < arn_n_per_positive ?self" by (simp add: AddRandomNegativesToBatch_def)
  have ids: "sample_ids ?self (\<lambda>k. 3 * k + 1) 2 () = Inr [1, 0, 1, 0]"
    by (simp add: sample_ids_eq AddRandomNegativesToBatch_def upt_rec [of _ 4] upt_rec [of _ "Suc (Suc (Suc (Suc 0)))"])
  from sample_ids_in_range [where ?'r = nat, OF h1 h2, where rng = "\<lambda>k. 3 * k + 1" and items = "()"]
  obtain ids' where
    a: "sample_ids ?self (\<lambda>k. 3 * k + 1) 2 () = Inr ids'"
    and g: "\<forall>val. length (val :: nat list) = 2 \<longrightarrow> tf_gather val ids' = Inr (map (\<lambda>i. val ! nat i) ids')"
    by blast
  have e: "ids' = [1, 0, 1, 0]" using a ids by simp
  have "tf_gather [10, 20 :: nat] [1, 0, 1, 0] = Inr [20, 10, 20, 10]"
    using g e by simp
  then show ?thesis using h1 h2 ids by simp
qed

section \<open>Properties: TabularPadding, padding one ragged column\<close>

lemma length_offsets_of [simp]: "length (offsets_of a rs) = Suc (length rs)"
  by (induction rs arbitrary: a) auto

lemma offsets_of_nonempty [simp]: "offsets_of a rs \<noteq> []"
  by (cases rs) auto

lemma diff_offsets_of:
  "map2 (-) (tl (offsets_of a rs)) (butlast (offsets_of a rs)) = map (\<lambda>r. int (length r)) rs"
proof (induction rs arbitrary: a)
  case Nil
  then show ?case by simp
next
  case (Cons r rs)
  have "tl (offsets_of (a + length r) rs) = tl (offsets_of (a + length r) rs)" by simp
  show ?case
    using Cons.IH [of "a + length r"]
    by (cases rs) auto
qed

lemma fold_max_Max: "fold max xs (x :: int) = Max (set (x # xs))"
  by (simp only: Max.set_eq_fold)

lemma torch_max_Vec: "xs \<noteq> [] \<Longrightarrow> torch_max (Vec xs) = Inr (Max (set xs))"
  by (cases xs) (auto simp: torch_max_def fold_max_Max simp del: Max_insert)

lemma Max_int_lengths:
  "rs \<noteq> [] \<Longrightarrow> Max (set (map (\<lambda>r. int (length r)) rs)) = int (max_row_length rs)"
proof -
  assume a: "rs \<noteq> []"
  have "int (Max (set (map length rs))) = Max (int ` set (map length rs))"
    using a by (intro mono_Max_commute) (auto simp: mono_def)
  then show ?thesis by (simp add: max_row_length_def image_image)
qed

lemma length_le_max_row_length: "r \<in> set rs \<Longrightarrow> length r \<le> max_row_length rs"
  by (auto simp: max_row_length_def)

lemma rows_repeated:
  "concat (map2 (\<lambda>x r. replicate (nat r) x) (map int [s..<s + length rs]) (map (\<lambda>r. int (length r)) rs))
     = concat (map2 (\<lambda>i r. replicate (length r) (int i)) [s..<s + length rs] rs)"
  by (simp add: zip_map1 zip_map2 case_prod_unfold comp_def)

lemma butlast_offsets_of:
  "concat (map2 (\<lambda>x r. replicate (nat r) x) (butlast (offsets_of a rs)) (map (\<lambda>r. int (length r)) rs))
    = concat (map (\<lambda>p. replicate (length (snd p)) (fst p)) (zip (butlast (offsets_of a rs)) rs))"
  by (simp add: zip_map2 case_prod_unfold comp_def)

lemma block_coords:
  "zip (replicate n (int s)) (map2 (-) (map int [a..<a + n]) (replicate n (int a)))
     = map (\<lambda>j. (int s, int j)) [0..<n]"
  by (rule nth_equalityI) auto

lemma indices_gen:
  "zip (concat (map2 (\<lambda>i r. replicate (length r) (int i)) [s..<s + length rs] rs))
       (map2 (-) (map int [a..<a + length (concat rs)])
                 (concat (map (\<lambda>p. replicate (length (snd p)) (fst p)) (zip (butlast (offsets_of a rs)) rs))))
   = coords s rs"
proof (induction rs arbitrary: s a)
  case Nil
  then show ?case by simp
next
  case (Cons r rs)
  let ?n = "length r"
  let ?m = "length (concat rs)"
  have up1: "[s..<s + length (r # rs)] = s # [Suc s..<Suc s + length rs]"
    by (subst upt_conv_Cons) auto
  have up2: "[a..<a + length (concat (r # rs))] = [a..<a + ?n] @ [a + ?n..<a + ?n + ?m]"
  proof -
    have "[a..<(a + ?n) + ?m] = [a..<a + ?n] @ [a + ?n..<a + ?n + ?m]"
      by (rule upt_add_eq_append) simp
    then show ?thesis by (simp add: add.assoc)
  qed
  have bl: "butlast (offsets_of a (r # rs)) = int a # butlast (offsets_of (a + ?n) rs)"
    by simp
  show ?case
    unfolding up1 up2 bl
    using Cons.IH [of "Suc s" "a + ?n"] block_coords [of ?n s a]
    by (simp add: zip_append case_prod_unfold)
qed

lemma length_coords [simp]: "length (coords s rs) = length (concat rs)"
  by (induction rs arbitrary: s) auto

lemma get_indices_offsets_of:
  "get_indices (Vec (offsets_of 0 rs)) (Vec (map (\<lambda>r. int (length r)) rs)) = Inr (coords 0 rs)"
proof -
  have neg: "\<not> list_ex (\<lambda>r. r < 0) (map (\<lambda>r. int (length r)) rs)"
    by (simp add: list_ex_iff)
  have r1: "repeat_interleave (map int [0..<length rs]) (map (\<lambda>r. int (length r)) rs)
              = Inr (concat (map2 (\<lambda>i r. replicate (length r) (int i)) [0..<0 + length rs] rs))"
    using neg rows_repeated [of 0 rs] by (simp add: repeat_interleave_def)
  have r2: "repeat_interleave (butlast (offsets_of 0 rs)) (map (\<lambda>r. int (length r)) rs)
              = Inr (concat (map (\<lambda>p. replicate (length (snd p)) (fst p)) (zip (butlast (offsets_of 0 rs)) rs)))"
    using neg butlast_offsets_of [of 0 rs] by (simp add: repeat_interleave_def)
  have len: "length (concat (map (\<lambda>p. replicate (length (snd p)) (fst p)) (zip (butlast (offsets_of 0 rs)) rs)))
               = 0 + length (concat rs)"
  proof -
    have "\<And>a. length (concat (map (\<lambda>p. replicate (length (snd p)) (fst p)) (zip (butlast (offsets_of a rs)) rs)))
               = length (concat rs)"
      by (induction rs) auto
    then show ?thesis by simp
  qed
  show ?thesis
    using indices_gen [of 0 rs 0]
    by (simp add: r1 r2 bind_err_def Let_def len del: upt_Suc)
qed

lemma coords_rows: "(i, j) \<in> set (coords s rs) \<Longrightarrow> int s \<le> i \<and> i < int (s + length rs)"
  by (induction rs arbitrary: s) (auto, fastforce+)

lemma coords_cols: "(i, j) \<in> set (coords s rs) \<Longrightarrow> 0 \<le> j \<and> j < int (max_row_length rs)"
proof (induction rs arbitrary: s)
  case Nil
  then show ?case by simp
next
  case (Cons r rs)
  have le: "\<And>x. x \<in> set rs \<Longrightarrow> length x \<le> max_row_length (r # rs)"
    by (simp add: length_le_max_row_length)
  have mono: "rs \<noteq> [] \<Longrightarrow> max_row_length rs \<le> max_row_length (r # rs)"
    by (auto simp: max_row_length_def)
  from Cons.prems consider "(i, j) \<in> set (map (\<lambda>j. (int s, int j)) [0..<length r])"
    | "(i, j) \<in> set (coords (Suc s) rs)" by auto
  then show ?case
  proof cases
    case 1
    have "length r \<le> max_row_length (r # rs)" by (simp add: length_le_max_row_length)
    with 1 show ?thesis by auto
  next
    case 2
    then have "rs \<noteq> []" by auto
    with 2 Cons.IH [of "Suc s"] mono show ?thesis by fastforce
  qed
qed

lemma sparse_coo_tensor_coords:
  "sparse_coo_tensor (coords 0 rs) (Vec (concat rs)) (int (length rs), int (max_row_length rs))
     = Inr \<lparr> sp_indices = coords 0 rs, sp_values = concat rs,
             sp_size = (length rs, max_row_length rs) \<rparr>"
proof -
  have "list_all (\<lambda>ij. 0 \<le> fst ij \<and> fst ij < int (length rs) \<and> 0 \<le> snd ij \<and> snd ij < int (max_row_length rs))
          (coords 0 rs)"
    unfolding list_all_iff
  proof
    fix ij assume a: "ij \<in> set (coords 0 rs)"
    obtain i j where ij: "ij = (i, j)" by (cases ij)
    from a ij coords_rows [of i j 0 rs] coords_cols [of i j 0 rs]
    show "0 \<le> fst ij \<and> fst ij < int (length rs) \<and> 0 \<le> snd ij \<and> snd ij < int (max_row_length rs)"
      by simp
  qed
  then show ?thesis by (simp add: sparse_coo_tensor_def)
qed

lemma zip_coords_Cons:
  "zip (coords s (r # rs)) (concat (r # rs))
     = zip (map (\<lambda>j. (int s, int j)) [0..<length r]) r @ zip (coords (Suc s) rs) (concat rs)"
  by (simp add: zip_append)

lemma filter_block_other:
  "i \<noteq> int s \<Longrightarrow> filter (\<lambda>e. fst e = (i, j)) (zip (map (\<lambda>j. (int s, int j)) [0..<length r]) r) = []"
  by (auto simp: filter_empty_conv in_set_zip)

lemma filter_later_rows:
  "i < int s \<Longrightarrow> filter (\<lambda>e. fst e = (i, j)) (zip (coords s rs) (concat rs)) = []"
proof -
  assume a: "i < int s"
  have "\<And>e. e \<in> set (zip (coords s rs) (concat rs)) \<Longrightarrow> fst e \<noteq> (i, j)"
  proof
    fix e assume e: "e \<in> set (zip (coords s rs) (concat rs))" and f: "fst e = (i, j)"
    then have "(i, j) \<in> set (coords s rs)"
      by (metis in_set_zipE prod.collapse)
    with coords_rows [of i j s rs] a show False by simp
  qed
  then show ?thesis by (auto simp: filter_empty_conv)
qed

lemma sum_block_same:
  "sum_list (map snd (filter (\<lambda>e. fst e = (int s, int j)) (zip (map (\<lambda>j. (int s, int j)) [0..<length r]) r)))
     = (if j < length r then r ! j else 0)"
proof -
  have "zip (map (\<lambda>j. (int s, int j)) [0..<length r]) r = map (\<lambda>k. ((int s, int k), r ! k)) [0..<length r]"
    by (rule nth_equalityI) auto
  moreover have "filter (\<lambda>e. fst e = (int s, int j)) (map (\<lambda>k. ((int s, int k), r ! k)) [0..<length r])
          = map (\<lambda>k. ((int s, int k), r ! k)) (filter (\<lambda>k. k = j) [0..<length r])"
    by (simp add: filter_map comp_def)
  moreover have "filter (\<lambda>k. k = j) [0..<length r] = (if j < length r then [j] else [])"
    by (induction r rule: rev_induct) auto
  ultimately show ?thesis by simp
qed

lemma dense_entry:
  "i < length rs \<Longrightarrow>
   sum_list (map snd (filter (\<lambda>e. fst e = (int (s + i), int j)) (zip (coords s rs) (concat rs))))
     = (if j < length (rs ! i) then rs ! i ! j else 0)"
proof (induction rs arbitrary: s i)
  case Nil
  then show ?case by simp
next
  case (Cons r rs)
  show ?case
  proof (cases i)
    case 0
    have "filter (\<lambda>e. fst e = (int s, int j)) (zip (coords (Suc s) rs) (concat rs)) = []"
      by (rule filter_later_rows) simp
    then show ?thesis
      using sum_block_same [of s j r] unfolding zip_coords_Cons 0 by simp
  next
    case (Suc k)
    have k: "k < length rs" using Cons.prems Suc by simp
    have "filter (\<lambda>e. fst e = (int (s + i), int j)) (zip (map (\<lambda>j. (int s, int j)) [0..<length r]) r) = []"
      by (rule filter_block_other) (simp add: Suc)
    then show ?thesis
      using Cons.IH [OF k, of "Suc s"] unfolding zip_coords_Cons Suc by simp
  qed
qed

lemma to_dense_coords:
  "to_dense \<lparr> sp_indices = coords 0 rs, sp_values = concat rs, sp_size = (length rs, m) \<rparr>
     = Mat m (map (\<lambda>r. map (\<lambda>j. if j < length r then r ! j else 0) [0..<m]) rs)"
proof -
  have "map (\<lambda>i. map (\<lambda>j. sum_list (map snd (filter (\<lambda>e. fst e = (int i, int j)) (zip (coords 0 rs) (concat rs))))) [0..<m])
            [0..<length rs]
        = map (\<lambda>i. map (\<lambda>j. if j < length (rs ! i) then rs ! i ! j else 0) [0..<m]) [0..<length rs]"
    using dense_entry [of _ rs 0] by simp
  also have "\<dots> = map (\<lambda>r. map (\<lambda>j. if j < length r then r ! j else 0) [0..<m]) rs"
    by (rule nth_equalityI) auto
  finally show ?thesis by (simp add: to_dense_def)
qed

lemma dense_row_pad:
  "length r \<le> m \<Longrightarrow> map (\<lambda>j. if j < length r then r ! j else 0) [0..<m] = r @ replicate (m - length r) (0::int)"
  by (rule nth_equalityI) (auto simp: nth_append)

lemma pad_dense_row:
  "length r \<le> m \<Longrightarrow> take n (r @ replicate (m - length r) (0::int)) @ replicate (n - m) 0 = pad_row n r"
  by (rule nth_equalityI) (auto simp: pad_row_def nth_append min_def)

lemma pad_ragged_tensor_rows:
  assumes "rs \<noteq> []" and "0 \<le> L"
  shows "pad_ragged_tensor (Vec (concat rs)) (Vec (offsets_of 0 rs)) L
           = Inr (Mat (nat L) (map (pad_row (nat L)) rs))"
proof -
  let ?m = "max_row_length rs"
  have d: "adjacent_diff (Vec (offsets_of 0 rs)) = Inr (Vec (map (\<lambda>r. int (length r)) rs))"
    by (simp add: diff_offsets_of)
  have mx: "torch_max (Vec (map (\<lambda>r. int (length r)) rs)) = Inr (int ?m)"
  proof -
    have "torch_max (Vec (map (\<lambda>r. int (length r)) rs)) = Inr (Max (set (map (\<lambda>r. int (length r)) rs)))"
      by (rule torch_max_Vec) (simp add: assms(1))
    then show ?thesis by (simp only: Max_int_lengths [OF assms(1)])
  qed
  have dense: "to_dense \<lparr> sp_indices = coords 0 rs, sp_values = concat rs, sp_size = (length rs, ?m) \<rparr>
                 = Mat ?m (map (\<lambda>r. r @ replicate (?m - length r) 0) rs)"
    unfolding to_dense_coords
    by (simp add: dense_row_pad length_le_max_row_length)
  have pad: "pad_dense_tensor (Mat ?m (map (\<lambda>r. r @ replicate (?m - length r) 0) rs)) L
               = Inr (Mat (nat L) (map (pad_row (nat L)) rs))"
  proof -
    have e: "nat (L - int ?m) = nat L - ?m" by simp
    have nl: "\<not> L < 0" using assms(2) by simp
    have rows: "\<And>r. r \<in> set rs \<Longrightarrow>
        take (nat L) (r @ replicate (?m - length r) 0) @ replicate (nat L - ?m) 0 = pad_row (nat L) r"
      by (rule pad_dense_row) (rule length_le_max_row_length)
    have m: "map (\<lambda>r'. take (nat L) r' @ replicate (nat L - ?m) 0)
               (map (\<lambda>r. r @ replicate (?m - length r) 0) rs) = map (pad_row (nat L)) rs"
      unfolding map_map comp_def using rows by (intro map_cong refl)
    show ?thesis
      by (simp only: pad_dense_tensor.simps Let_def nl if_False e m)
  qed
  show ?thesis
    by (simp add: pad_ragged_tensor_def Let_def bind_err_def d mx get_indices_offsets_of
          sparse_coo_tensor_coords dense pad
          del: adjacent_diff.simps get_indices.simps pad_dense_tensor.simps)
qed

lemma length_ragged_rows [simp]: "length (ragged_rows vals offsets) = length offsets - 1"
  by (induction vals offsets rule: ragged_rows.induct) auto

lemma ragged_rows_nth:
  "i < length offsets - 1 \<Longrightarrow>
   ragged_rows vals offsets ! i
     = take (nat (offsets ! Suc i - offsets ! i)) (drop (nat (offsets ! i)) vals)"
proof (induction vals offsets arbitrary: i rule: ragged_rows.induct)
  case (1 vals a b offsets)
  then show ?case by (cases i) auto
qed auto

lemma ragged_rows_decompose:
  assumes "sorted (a # os)" and "0 \<le> a" and "last (a # os) \<le> int (length vals)"
  shows "offsets_of (nat a) (ragged_rows vals (a # os)) = a # os
       \<and> concat (ragged_rows vals (a # os)) = take (nat (last (a # os)) - nat a) (drop (nat a) vals)"
  using assms
proof (induction os arbitrary: a)
  case Nil
  then show ?case by simp
next
  case (Cons b os)
  have ab: "a \<le> b" using Cons.prems(1) by simp
  have b0: "0 \<le> b" using ab Cons.prems(2) by simp
  have sb: "sorted (b # os)" using Cons.prems(1) by simp
  have lb: "last (b # os) \<le> int (length vals)" using Cons.prems(3) by simp
  have bl: "b \<le> last (b # os)" using sb by (metis last_in_set list.distinct(1) order_refl set_ConsD sorted_simps(2))
  have blen: "nat b \<le> length vals" using bl lb by simp
  have len1: "length (take (nat (b - a)) (drop (nat a) vals)) = nat (b - a)"
    using ab blen Cons.prems(2) by (simp add: min_def) linarith
  have step: "nat a + nat (b - a) = nat b" using ab Cons.prems(2) by simp
  note IH = Cons.IH [OF sb b0 lb]
  have o: "offsets_of (nat a) (ragged_rows vals (a # b # os)) = a # b # os"
    using IH Cons.prems(2) by (simp add: len1 step del: length_take)
  have "take (nat (b - a)) (drop (nat a) vals) @ take (nat (last (b # os)) - nat b) (drop (nat b) vals)
          = take (nat (last (b # os)) - nat a) (drop (nat a) vals)"
  proof -
    have e1: "nat (last (b # os)) - nat a = nat (b - a) + (nat (last (b # os)) - nat b)"
      using ab bl Cons.prems(2) by linarith
    have e2: "drop (nat (b - a)) (drop (nat a) vals) = drop (nat b) vals"
      using step by (simp add: add.commute)
    show ?thesis unfolding e1 take_add e2 ..
  qed
  then have c: "concat (ragged_rows vals (a # b # os))
             = take (nat (last (a # b # os)) - nat a) (drop (nat a) vals)"
    using IH by simp
  show ?case using o c by blast
qed

lemma valid_ragged_rows:
  assumes "valid_ragged vals offsets"
  shows "offsets_of 0 (ragged_rows vals offsets) = offsets"
    and "concat (ragged_rows vals offsets) = vals"
    and "ragged_rows vals offsets \<noteq> []"
proof -
  obtain a os where o: "offsets = a # os" and a: "a = 0"
    using assms by (cases offsets) (auto simp: valid_ragged_def)
  have s: "sorted (a # os)" and l: "last (a # os) = int (length vals)"
    using assms o by (auto simp: valid_ragged_def)
  from ragged_rows_decompose [of a os vals] s l a
  show "offsets_of 0 (ragged_rows vals offsets) = offsets"
    and "concat (ragged_rows vals offsets) = vals"
    by (simp_all add: o)
  show "ragged_rows vals offsets \<noteq> []"
    using assms length_ragged_rows [of vals offsets]
    by (auto simp: valid_ragged_def simp del: length_ragged_rows)
qed

lemma pad_ragged_tensor_valid:
  assumes "valid_ragged vals offsets" and "0 \<le> L"
  shows "pad_ragged_tensor (Vec vals) (Vec offsets) L
           = Inr (Mat (nat L) (map (pad_row (nat L)) (ragged_rows vals offsets)))"
  using pad_ragged_tensor_rows [OF valid_ragged_rows(3) [OF assms(1)] assms(2)]
  by (simp add: valid_ragged_rows(1,2) [OF assms(1)])

lemma valid_ragged_offsets_bounds:
  assumes "valid_ragged vals offsets" and "i < length offsets - 1"
  shows "0 \<le> offsets ! i" and "offsets ! i \<le> offsets ! Suc i" and "offsets ! Suc i \<le> int (length vals)"
proof -
  have s: "sorted offsets" and h: "hd offsets = 0" and l: "last offsets = int (length vals)"
    and ne: "offsets \<noteq> []"
    using assms(1) by (auto simp: valid_ragged_def)
  have "offsets ! 0 \<le> offsets ! i" using s assms(2) by (intro sorted_nth_mono) auto
  then show "0 \<le> offsets ! i" using h ne by (simp add: hd_conv_nth)
  show "offsets ! i \<le> offsets ! Suc i" using s assms(2) by (intro sorted_nth_mono) auto
  have "offsets ! Suc i \<le> offsets ! (length offsets - 1)"
    using s assms(2) by (intro sorted_nth_mono) auto
  then show "offsets ! Suc i \<le> int (length vals)" using l ne by (simp add: last_conv_nth)
qed

text \<open>
  C1. For a ragged column given as values and monotonic offsets (starting at 0 and
  ending at the number of values) in which all rows have equal length, padding to a
  length \<open>L\<close> that is at least every row length returns a dense tensor of shape
  \<open>(rows, L)\<close> in which entry \<open>(i, j)\<close> is \<open>values[offsets[i] + j]\<close> for
  \<open>j < offsets[i+1] - offsets[i]\<close> and 0 for every later \<open>j\<close> below \<open>L\<close>.
\<close>

theorem pad_ragged_tensor_entries:
  assumes "valid_ragged vals offsets"
      and "\<forall>i < length offsets - 1. \<forall>k < length offsets - 1.
             offsets ! Suc i - offsets ! i = offsets ! Suc k - offsets ! k"
      and "\<forall>i < length offsets - 1. offsets ! Suc i - offsets ! i \<le> L"
  shows "\<exists>rows. pad_ragged_tensor (Vec vals) (Vec offsets) L = Inr (Mat (nat L) rows)
           \<and> length rows = length offsets - 1
           \<and> (\<forall>i < length offsets - 1. length (rows ! i) = nat L
                \<and> (\<forall>j < nat L. rows ! i ! j =
                      (if int j < offsets ! Suc i - offsets ! i
                       then vals ! (nat (offsets ! i) + j) else 0)))"
proof -
  let ?rows = "map (pad_row (nat L)) (ragged_rows vals offsets)"
  have n: "0 < length offsets - 1" using assms(1) by (simp add: valid_ragged_def)
  have L0: "0 \<le> L"
    using assms(3) n valid_ragged_offsets_bounds(2) [OF assms(1) n] by fastforce
  have r: "pad_ragged_tensor (Vec vals) (Vec offsets) L = Inr (Mat (nat L) ?rows)"
    by (rule pad_ragged_tensor_valid [OF assms(1) L0])
  have e: "\<forall>i < length offsets - 1. length (?rows ! i) = nat L
                \<and> (\<forall>j < nat L. ?rows ! i ! j =
                      (if int j < offsets ! Suc i - offsets ! i
                       then vals ! (nat (offsets ! i) + j) else 0))"
  proof (intro allI impI)
    fix i assume i: "i < length offsets - 1"
    let ?d = "nat (offsets ! Suc i - offsets ! i)"
    let ?o = "nat (offsets ! i)"
    let ?r = "take ?d (drop ?o vals)"
    note b = valid_ragged_offsets_bounds [OF assms(1) i]
    have "offsets ! Suc i - offsets ! i \<le> L" using assms(3) i by blast
    then have dL: "?d \<le> nat L" by (rule nat_mono)
    have fit: "?o + ?d \<le> length vals" using b by linarith
    have lr: "length ?r = ?d" using fit by simp
    have row: "?rows ! i = pad_row (nat L) ?r"
      using i by (simp add: ragged_rows_nth)
    have len: "length (?rows ! i) = nat L"
      unfolding row using dL lr by (simp add: pad_row_def)
    have ent: "\<forall>j < nat L. ?rows ! i ! j =
                      (if int j < offsets ! Suc i - offsets ! i
                       then vals ! (?o + j) else 0)"
    proof (intro allI impI)
      fix j assume j: "j < nat L"
      have c: "(int j < offsets ! Suc i - offsets ! i) = (j < ?d)" by linarith
      show "?rows ! i ! j = (if int j < offsets ! Suc i - offsets ! i then vals ! (?o + j) else 0)"
      proof (cases "j < ?d")
        case True
        then have "pad_row (nat L) ?r ! j = ?r ! j"
          using dL lr by (simp add: pad_row_def nth_append)
        also have "\<dots> = vals ! (?o + j)"
          using True fit by simp
        finally show ?thesis using True row c by simp
      next
        case False
        have k: "j - ?d < nat L - ?d" using False j by linarith
        have "pad_row (nat L) ?r ! j = replicate (nat L - ?d) 0 ! (j - ?d)"
          using False dL lr by (simp add: pad_row_def nth_append)
        also have "\<dots> = 0" using k by simp
        finally show ?thesis using False row c by simp
      qed
    qed
    show "length (?rows ! i) = nat L \<and> (\<forall>j < nat L. ?rows ! i ! j =
                      (if int j < offsets ! Suc i - offsets ! i
                       then vals ! (nat (offsets ! i) + j) else 0))"
      using len ent by blast
  qed
  show ?thesis using r e by (intro exI [of _ ?rows]) simp
qed


theorem pad_ragged_tensor_entries_witness:
  "valid_ragged [5, 6, 7, 8] [0, 2, 4]
   \<and> pad_ragged_tensor (Vec [5, 6, 7, 8]) (Vec [0, 2, 4]) 3 = Inr (Mat 3 [[5, 6, 0], [7, 8, 0]])"
proof -
  let ?vals = "[5, 6, 7, 8] :: int list"
  let ?offsets = "[0, 2, 4] :: int list"
  have h1: "valid_ragged ?vals ?offsets"
    by (simp add: valid_ragged_def)
  have h2: "\<forall>i < length ?offsets - 1. \<forall>k < length ?offsets - 1.
             ?offsets ! Suc i - ?offsets ! i = ?offsets ! Suc k - ?offsets ! k"
    by (simp add: less_Suc_eq nth_Cons')
  have h3: "\<forall>i < length ?offsets - 1. ?offsets ! Suc i - ?offsets ! i \<le> 3"
    by (simp add: less_Suc_eq nth_Cons')
  from pad_ragged_tensor_entries [OF h1 h2 h3]
  obtain rows where
    r: "pad_ragged_tensor (Vec ?vals) (Vec ?offsets) 3 = Inr (Mat (nat 3) rows)"
    and n: "length rows = length ?offsets - 1"
    and e: "\<forall>i < length ?offsets - 1. length (rows ! i) = nat 3
                \<and> (\<forall>j < nat 3. rows ! i ! j =
                      (if int j < ?offsets ! Suc i - ?offsets ! i
                       then ?vals ! (nat (?offsets ! i) + j) else 0))"
    by blast
  have e0: "rows ! 0 = [5, 6, 0]"
  proof (rule nth_equalityI)
    show "length (rows ! 0) = length [5, 6, 0 :: int]" using e by simp
    fix j assume "j < length (rows ! 0)"
    then have j: "j < 3" using e by simp
    then have "j = 0 \<or> j = 1 \<or> j = 2" by linarith
    then show "rows ! 0 ! j = [5, 6, 0] ! j" using e by auto
  qed
  have e1: "rows ! 1 = [7, 8, 0]"
  proof (rule nth_equalityI)
    show "length (rows ! 1) = length [7, 8, 0 :: int]" using e by simp
    fix j assume "j < length (rows ! 1)"
    then have j: "j < 3" using e by simp
    then have "j = 0 \<or> j = 1 \<or> j = 2" by linarith
    then show "rows ! 1 ! j = [7, 8, 0] ! j" using e by auto
  qed
  have "rows = [[5, 6, 0], [7, 8, 0]]"
  proof (rule nth_equalityI)
    show "length rows = length [[5, 6, 0], [7, 8, 0 :: int]]" using n by simp
    fix i assume "i < length rows"
    then have "i = 0 \<or> i = 1" using n by auto
    then show "rows ! i = [[5, 6, 0], [7, 8, 0]] ! i" using e0 e1 by auto
  qed
  then show ?thesis using r h1 by simp
qed

section \<open>Properties: TabularPadding, the single-row case\<close>

lemma pad_ragged_tensor_traced_snd:
  "snd (pad_ragged_tensor_traced v os L) = pad_ragged_tensor v os L"
  by (auto simp: pad_ragged_tensor_traced_def pad_ragged_tensor_def Let_def bind_err_def
           split: sum.splits prod.splits)

lemma pad_ragged_tensor_traced_rows:
  assumes "rs \<noteq> []" and "0 \<le> L"
  shows "pad_ragged_tensor_traced (Vec (concat rs)) (Vec (offsets_of 0 rs)) L
           = ([coords 0 rs], Inr (Mat (nat L) (map (pad_row (nat L)) rs)))"
proof -
  have d: "adjacent_diff (Vec (offsets_of 0 rs)) = Inr (Vec (map (\<lambda>r. int (length r)) rs))"
    by (simp add: diff_offsets_of)
  have mx: "torch_max (Vec (map (\<lambda>r. int (length r)) rs)) = Inr (int (max_row_length rs))"
  proof -
    have "torch_max (Vec (map (\<lambda>r. int (length r)) rs)) = Inr (Max (set (map (\<lambda>r. int (length r)) rs)))"
      by (rule torch_max_Vec) (simp add: assms(1))
    then show ?thesis by (simp only: Max_int_lengths [OF assms(1)])
  qed
  have f: "fst (pad_ragged_tensor_traced (Vec (concat rs)) (Vec (offsets_of 0 rs)) L) = [coords 0 rs]"
    by (simp add: pad_ragged_tensor_traced_def Let_def bind_err_def d mx get_indices_offsets_of
          del: adjacent_diff.simps get_indices.simps pad_dense_tensor.simps)
  have s: "snd (pad_ragged_tensor_traced (Vec (concat rs)) (Vec (offsets_of 0 rs)) L)
             = Inr (Mat (nat L) (map (pad_row (nat L)) rs))"
    by (simp only: pad_ragged_tensor_traced_snd pad_ragged_tensor_rows [OF assms])
  show ?thesis using f s by (simp add: prod_eq_iff)
qed

lemma squeeze_column: "squeeze (Mat 1 (map (\<lambda>v. [v]) vs)) = Vec vs"
  by (induction vs) auto

text \<open>
  C7, as the code has it. A single row is not a special case: for a ragged input of one
  row, \<open>_pad_ragged_tensor\<close> calls \<open>_get_indices\<close>, which builds the pair \<open>(0, j)\<close> for
  every \<open>j\<close> below the row length, and the result is the row followed by zeros up to
  \<open>L\<close> (for \<open>L\<close> at least the row length). What \<open>_squeeze\<close> does is turn values of shape
  \<open>(N, 1)\<close> into shape \<open>(N)\<close> before the same computation.
\<close>

theorem single_row_builds_coordinates:
  assumes "int (length vals) \<le> L"
  shows "pad_ragged_tensor_traced (Vec vals) (Vec [0, int (length vals)]) L
           = ([map (\<lambda>j. (0, int j)) [0..<length vals]],
              Inr (Mat (nat L) [vals @ replicate (nat L - length vals) 0]))
       \<and> pad_ragged_tensor_traced (Mat 1 (map (\<lambda>v. [v]) vals)) (Vec [0, int (length vals)]) L
           = pad_ragged_tensor_traced (Vec vals) (Vec [0, int (length vals)]) L"
proof -
  have L0: "0 \<le> L" using assms by linarith
  have "pad_ragged_tensor_traced (Vec (concat [vals])) (Vec (offsets_of 0 [vals])) L
          = ([coords 0 [vals]], Inr (Mat (nat L) (map (pad_row (nat L)) [vals])))"
    by (rule pad_ragged_tensor_traced_rows) (simp_all add: L0)
  moreover have "pad_row (nat L) vals = vals @ replicate (nat L - length vals) 0"
    using assms by (simp add: pad_row_def)
  ultimately have a: "pad_ragged_tensor_traced (Vec vals) (Vec [0, int (length vals)]) L
           = ([map (\<lambda>j. (0, int j)) [0..<length vals]],
              Inr (Mat (nat L) [vals @ replicate (nat L - length vals) 0]))"
    by simp
  have b: "pad_ragged_tensor_traced (Mat 1 (map (\<lambda>v. [v]) vals)) (Vec [0, int (length vals)]) L
           = pad_ragged_tensor_traced (Vec vals) (Vec [0, int (length vals)]) L"
    unfolding pad_ragged_tensor_traced_def squeeze_column by simp
  show ?thesis using a b by blast
qed

theorem single_row_builds_coordinates_witness:
  "int (length [5, 6 :: int]) \<le> 3
   \<and> pad_ragged_tensor_traced (Vec [5, 6]) (Vec [0, 2]) 3
       = ([[(0, 0), (0, 1)]], Inr (Mat 3 [[5, 6, 0]]))"
  using single_row_builds_coordinates [of "[5, 6]" 3]
  by (simp add: upt_rec numeral_3_eq_3)

text \<open>
  C7 as stated fails: on the single row \<open>[5, 6]\<close> the coordinate pairs \<open>(0, 0)\<close> and
  \<open>(0, 1)\<close> are built.
\<close>

theorem single_row_no_bypass_counterexample:
  "fst (pad_ragged_tensor_traced (Vec [5, 6]) (Vec [0, 2]) 3) = [[(0, 0), (0, 1)]]
   \<and> fst (pad_ragged_tensor_traced (Vec [5, 6]) (Vec [0, 2]) 3) \<noteq> []"
  by code_simp

end
